theory Spec2Isabelle
  imports Main "HOL-Library.AList"
begin

section \<open>Values and strings of the host language\<close>

text \<open>
  The program is \<^verbatim>\<open>src/extract_metadata.py\<close>. Everything it handles is what
  \<^verbatim>\<open>json.loads\<close> returns: \<^verbatim>\<open>None\<close>, booleans, integers, strings, lists
  and dictionaries. A dictionary is an association list in insertion order; a lookup
  takes the first entry of a key, an assignment keeps the position of a key that is
  there and appends a new one (\<open>AList.update\<close>). JSON numbers with a fraction or an
  exponent (Python floats) are left out of the model.
\<close>

datatype json =
    JNull
  | JBool bool
  | JInt int
  | JStr string
  | JList "json list"
  | JObj "(string \<times> json) list"

datatype error =
    JSONDecodeError
  | TypeError
  | AttributeError
  | KeyError
  | OSError
  | APIError
  | RecursionError
  | ValueError

text \<open>Python truthiness (\<^verbatim>\<open>if name:\<close>, \<^verbatim>\<open>if not name:\<close>).\<close>

fun truthy :: "json \<Rightarrow> bool" where
  "truthy JNull = False"
| "truthy (JBool b) = b"
| "truthy (JInt i) = (i \<noteq> 0)"
| "truthy (JStr s) = (s \<noteq> [])"
| "truthy (JList xs) = (xs \<noteq> [])"
| "truthy (JObj kvs) = (kvs \<noteq> [])"

text \<open>
  A string is a list of characters, and a character is a code point below 256; text
  with code points beyond that is outside the model. \<^verbatim>\<open>str.strip()\<close> removes
  leading and trailing whitespace, which is what \<^verbatim>\<open>str.isspace\<close> accepts: below
  256 these are the code points 9 to 13, 28 to 32, 133 (U+0085) and 160 (U+00A0).
\<close>

definition py_isspace :: "char \<Rightarrow> bool" where
  "py_isspace c = (c \<in> set [CHR 0x09, CHR 0x0A, CHR 0x0B, CHR 0x0C, CHR 0x0D,
                              CHR 0x1C, CHR 0x1D, CHR 0x1E, CHR 0x1F, CHR 0x20,
                              CHR 0x85, CHR 0xA0])"

definition py_strip :: "string \<Rightarrow> string" where
  "py_strip s = rev (dropWhile py_isspace (rev (dropWhile py_isspace s)))"

text \<open>\<^verbatim>\<open>s.startswith(p)\<close>.\<close>

definition startswith :: "string \<Rightarrow> string \<Rightarrow> bool" where
  "startswith s p = (take (length p) s = p)"

text \<open>\<^verbatim>\<open>sub in s\<close> for two strings: \<open>sub\<close> occurs in \<open>s\<close>.\<close>

fun str_contains :: "string \<Rightarrow> string \<Rightarrow> bool" where
  "str_contains sub [] = (sub = [])"
| "str_contains sub (c # cs) = (startswith (c # cs) sub \<or> str_contains sub cs)"

text \<open>
  \<^verbatim>\<open>s.replace(old, new)\<close>: the occurrences of \<open>old\<close> are found from the left and
  do not overlap. With an empty \<open>old\<close> Python puts \<open>new\<close> before every character
  and at the end.
\<close>

function py_replace :: "string \<Rightarrow> string \<Rightarrow> string \<Rightarrow> string" where
  "py_replace old new [] = (if old = [] then new else [])"
| "py_replace old new (c # cs) =
     (if old = [] then new @ c # py_replace old new cs
      else if startswith (c # cs) old
           then new @ py_replace old new (drop (length old) (c # cs))
           else c # py_replace old new cs)"
  by pat_completeness auto
termination
  by (relation "measure (\<lambda>(old, new, s). length s)") auto

text \<open>\<^verbatim>\<open>s.split(sep)\<close> for a one-character separator: every piece is kept.\<close>

fun py_split :: "char \<Rightarrow> string \<Rightarrow> string list" where
  "py_split sep [] = [[]]"
| "py_split sep (c # cs) =
     (if c = sep then [] # py_split sep cs
      else (let ps = py_split sep cs in (c # hd ps) # tl ps))"

text \<open>Decimal digits of a natural number and \<^verbatim>\<open>str\<close> of an integer.\<close>

fun string_of_nat :: "nat \<Rightarrow> string" where
  "string_of_nat n =
     (if n < 10 then [''0123456789'' ! n]
      else string_of_nat (n div 10) @ [''0123456789'' ! (n mod 10)])"

declare string_of_nat.simps [simp del]

definition string_of_int :: "int \<Rightarrow> string" where
  "string_of_int i = (if i < 0 then CHR ''-'' # string_of_nat (nat (- i)) else string_of_nat (nat i))"

text \<open>
  \<^verbatim>\<open>str(v)\<close>, which is also what an f-string puts for \<open>v\<close>. On a string it is the
  string, on the other scalars it is fixed; on a list or a dictionary it is Python's
  \<^verbatim>\<open>repr\<close>, taken as the parameter \<open>rp\<close>.
\<close>

fun py_str :: "(json \<Rightarrow> string) \<Rightarrow> json \<Rightarrow> string" where
  "py_str rp (JStr s) = s"
| "py_str rp JNull = ''None''"
| "py_str rp (JBool b) = (if b then ''True'' else ''False'')"
| "py_str rp (JInt i) = string_of_int i"
| "py_str rp v = rp v"

text \<open>\<^verbatim>\<open>d.get(k, default)\<close> and \<^verbatim>\<open>k in d\<close> on a dictionary.\<close>

definition dict_get :: "(string \<times> json) list \<Rightarrow> string \<Rightarrow> json \<Rightarrow> json" where
  "dict_get d k dflt = (case map_of d k of None \<Rightarrow> dflt | Some v \<Rightarrow> v)"

definition has_key :: "(string \<times> json) list \<Rightarrow> string \<Rightarrow> bool" where
  "has_key d k = (map_of d k \<noteq> None)"

section \<open>The default record\<close>

definition get_default_metadata :: "(string \<times> json) list" where
  "get_default_metadata =
     [(''title'', JStr ''unknown''),
      (''authors'', JList [JStr ''unknown'']),
      (''year'', JStr ''unknown''),
      (''journal'', JStr ''unknown''),
      (''doi'', JStr ''unknown''),
      (''keywords'', JList []),
      (''abstract'', JStr ''unknown'')]"

section \<open>The normalizer\<close>

text \<open>
  The name taken from an author given as a dictionary: the \<^verbatim>\<open>name\<close> entry, else
  first and last name joined by a space and stripped, else the \<^verbatim>\<open>full_name\<close>
  entry. The result is whatever value the entry holds.
\<close>

definition author_name :: "(json \<Rightarrow> string) \<Rightarrow> (string \<times> json) list \<Rightarrow> json" where
  "author_name rp author =
     (let name = dict_get author ''name'' (JStr []);
          name = (if \<not> truthy name
                  then JStr (py_strip (py_str rp (dict_get author ''first_name'' (JStr []))
                                       @ '' '' @ py_str rp (dict_get author ''last_name'' (JStr []))))
                  else name);
          name = (if \<not> truthy name then dict_get author ''full_name'' (JStr []) else name)
      in name)"

fun author_entry :: "(json \<Rightarrow> string) \<Rightarrow> json \<Rightarrow> json list" where
  "author_entry rp (JObj author) =
     (let name = author_name rp author in if truthy name then [name] else [])"
| "author_entry rp author = [JStr (py_str rp author)]"

text \<open>
  The pieces of a string at commas, semicolons taken as commas, each piece stripped
  and the empty ones dropped.
\<close>

definition split_separated :: "string \<Rightarrow> string list" where
  "split_separated s =
     filter (\<lambda>a. a \<noteq> []) (map py_strip (py_split CHR '','' (py_replace '';'' '','' s)))"

definition has_separator :: "string \<Rightarrow> bool" where
  "has_separator s = (str_contains '','' s \<or> str_contains '';'' s)"

fun normalize_authors :: "(json \<Rightarrow> string) \<Rightarrow> json \<Rightarrow> json" where
  "normalize_authors rp (JList xs) =
     (let author_strings = concat (map (author_entry rp) xs)
      in if author_strings \<noteq> [] then JList author_strings else JList [JStr ''unknown''])"
| "normalize_authors rp (JStr s) =
     (if has_separator s then JList (map JStr (split_separated s))
      else if s \<noteq> [] then JList [JStr s] else JList [JStr ''unknown''])"
| "normalize_authors rp v = JList [JStr ''unknown'']"

fun normalize_keywords :: "(json \<Rightarrow> string) \<Rightarrow> json \<Rightarrow> json" where
  "normalize_keywords rp (JList xs) = JList (map (\<lambda>k. JStr (py_str rp k)) xs)"
| "normalize_keywords rp (JStr s) =
     (if has_separator s then JList (map JStr (split_separated s))
      else if s \<noteq> [] then JList [JStr s] else JList [])"
| "normalize_keywords rp v = JList []"

definition normalize_metadata :: "(json \<Rightarrow> string) \<Rightarrow> (string \<times> json) list \<Rightarrow> (string \<times> json) list" where
  "normalize_metadata rp metadata =
     (let normalized = metadata;
          normalized = (case map_of normalized ''authors'' of
                          Some a \<Rightarrow> AList.update ''authors'' (normalize_authors rp a) normalized
                        | None \<Rightarrow> normalized);
          normalized = (case map_of normalized ''keywords'' of
                          Some k \<Rightarrow> AList.update ''keywords'' (normalize_keywords rp k) normalized
                        | None \<Rightarrow> normalized)
      in normalized)"

text \<open>
  The same splitting in the words of the specification: the string is cut at every
  comma and at every semicolon.
\<close>

fun split_on_both :: "string \<Rightarrow> string list" where
  "split_on_both [] = [[]]"
| "split_on_both (c # cs) =
     (if c = CHR '','' \<or> c = CHR '';'' then [] # split_on_both cs
      else (let ps = split_on_both cs in (c # hd ps) # tl ps))"

section \<open>The environment and the state\<close>

text \<open>
  What the program reads from outside is the environment \<open>env\<close>: the JSON parser
  \<^verbatim>\<open>json.loads\<close> (the value parsed, or the exception raised: \<^verbatim>\<open>JSONDecodeError\<close>
  on text that is not JSON, but also \<^verbatim>\<open>RecursionError\<close> on text nested too deep
  and \<^verbatim>\<open>ValueError\<close> on an integer with too many digits), \<^verbatim>\<open>repr\<close> of lists
  and dictionaries,
  the pages of a PDF as PyPDF2 gives them (\<open>None\<close> for a file that cannot be opened
  or parsed, and for a page whose text extraction raises), the outcome of the n-th
  completion call (the text of the response, or the exception raised by the call or
  by reading the text), the PDF files found under a directory, and the paths whose
  modification raises \<^verbatim>\<open>OSError\<close>.

  What the program changes is the state \<open>world\<close>: the files of the working directory,
  the number of completion calls made so far, the clock in seconds, and the history of
  the effects. A file holds a JSON document or bytes that \<^verbatim>\<open>json.load\<close> rejects
  with \<^verbatim>\<open>JSONDecodeError\<close>.
  A write is all or nothing. Of the console output the history keeps the message of a
  run that finds nothing to do (\<open>Reported\<close>) and, for every file, the line that says
  it was saved and marked (\<open>Saved\<close>) or the line that says it was skipped after an
  exception (\<open>Skipped\<close>). Writing a line to the console is taken not to fail, and an
  interruption by the operator is not modelled.
\<close>

datatype fdata = Doc json | Raw string

datatype event =
    Called string
  | Slept nat
  | StoreWritten json
  | LedgerWritten string json
  | Reported string
  | Saved string
  | Skipped string error

record pdf_file =
  full_path :: string
  file_name :: string
  rel_path :: string

record env =
  json_loads :: "string \<Rightarrow> error + json"
  py_repr :: "json \<Rightarrow> string"
  pdf_pages :: "string \<Rightarrow> string option list option"
  generate_content :: "nat \<Rightarrow> string \<Rightarrow> error + string"
  rglob :: "string \<Rightarrow> pdf_file list"
  io_fails :: "string \<Rightarrow> bool"

record world =
  files :: "string \<Rightarrow> fdata option"
  calls :: nat
  clock :: int
  trace :: "event list"

definition processed_files_path :: string where
  "processed_files_path = ''processed_files.json''"

definition metadata_path :: string where
  "metadata_path = ''metadata.json''"

definition sleep :: "nat \<Rightarrow> world \<Rightarrow> world" where
  "sleep d w = w\<lparr>clock := clock w + int d, trace := trace w @ [Slept d]\<rparr>"


definition write_file :: "string \<Rightarrow> fdata \<Rightarrow> world \<Rightarrow> world" where
  "write_file path d w = w\<lparr>files := (files w)(path \<mapsto> d)\<rparr>"

section \<open>The ledger and the store\<close>

text \<open>
  \<^verbatim>\<open>set(json.load(f))\<close>: a list gives the set of its elements, which must be
  hashable; a dictionary gives its keys, a string its characters; anything else is not
  iterable. A set is kept as a list without repetition, in insertion order (Python
  fixes no order). Elements are compared as Python compares them: \<^verbatim>\<open>True == 1\<close>.
\<close>

fun hashable :: "json \<Rightarrow> bool" where
  "hashable (JList xs) = False"
| "hashable (JObj d) = False"
| "hashable v = True"

fun py_eq :: "json \<Rightarrow> json \<Rightarrow> bool" where
  "py_eq (JBool b) (JInt i) = (i = (if b then 1 else 0))"
| "py_eq (JInt i) (JBool b) = (i = (if b then 1 else 0))"
| "py_eq x y = (x = y)"

definition set_add :: "json list \<Rightarrow> json \<Rightarrow> json list" where
  "set_add s x = (if list_ex (\<lambda>y. py_eq y x) s then s else s @ [x])"

fun py_set :: "json \<Rightarrow> error + json list" where
  "py_set (JList xs) = (if list_all hashable xs then Inr (foldl set_add [] xs) else Inl TypeError)"
| "py_set (JObj d) = Inr (foldl set_add [] (map (\<lambda>kv. JStr (fst kv)) d))"
| "py_set (JStr s) = Inr (foldl set_add [] (map (\<lambda>c. JStr [c]) s))"
| "py_set v = Inl TypeError"

definition load_processed_files :: "world \<Rightarrow> error + json list" where
  "load_processed_files w =
     (case files w processed_files_path of
        None \<Rightarrow> Inr []
      | Some (Raw b) \<Rightarrow> Inr []
      | Some (Doc v) \<Rightarrow> py_set v)"

definition save_processed_file :: "env \<Rightarrow> string \<Rightarrow> world \<Rightarrow> (error + unit) \<times> world" where
  "save_processed_file e filename w =
     (case load_processed_files w of
        Inl err \<Rightarrow> (Inl err, w)
      | Inr processed_files \<Rightarrow>
          (let processed_files = set_add processed_files (JStr filename)
           in if io_fails e processed_files_path then (Inl OSError, w)
              else (Inr (),
                    (write_file processed_files_path (Doc (JList processed_files)) w)
                      \<lparr>trace := trace w @ [LedgerWritten filename (JList processed_files)]\<rparr>)))"


section \<open>The text extractor\<close>

definition extract_text_from_pdf :: "env \<Rightarrow> string \<Rightarrow> nat \<Rightarrow> string" where
  "extract_text_from_pdf e pdf_path max_pages =
     (case pdf_pages e pdf_path of
        None \<Rightarrow> []
      | Some pages \<Rightarrow>
          (let num_pages = min (length pages) max_pages;
               text = foldl (\<lambda>text page. case page of
                                            Some page_text \<Rightarrow> text @ page_text @ [CHR 0x0A, CHR 0x0A]
                                          | None \<Rightarrow> text)
                            [] (take num_pages pages)
           in py_strip text))"

section \<open>The extraction client\<close>

definition system_prompt :: string where
  \<open>system_prompt =
     ''You are a research paper metadata extractor. Given text from the first few pages of a paper, extract the following information:'' @ [CHR 0x0A] @
     ''- Title'' @ [CHR 0x0A] @
     ''- Authors (as a list)'' @ [CHR 0x0A] @
     ''- Year'' @ [CHR 0x0A] @
     ''- Journal/Conference'' @ [CHR 0x0A] @
     ''- DOI (if available)'' @ [CHR 0x0A] @
     ''- Keywords (if available)'' @ [CHR 0x0A] @
     ''- Abstract (the full abstract text if found)'' @ [CHR 0x0A, CHR 0x0A] @
     ''If any field is unreadable or not found, return "unknown" for that field.'' @ [CHR 0x0A, CHR 0x0A] @
     ''Return ONLY a raw JSON object with these exact field names: title, authors, year, journal, doi, keywords, abstract. Do not include any other text or markdown formatting.''\<close>

definition build_prompt :: "string \<Rightarrow> string" where
  "build_prompt extracted_text =
     system_prompt @ [CHR 0x0A, CHR 0x0A] @ ''Extract bibliographic information from this text:''
       @ [CHR 0x0A, CHR 0x0A] @ extracted_text"

text \<open>The cleanup of the response text before it is parsed.\<close>

definition clean_response :: "string \<Rightarrow> string" where
  "clean_response text =
     (let content = py_strip text
      in if startswith content ''```json''
         then py_strip (py_replace ''```'' [] (py_replace ''```json'' [] content))
         else if startswith content ''```''
              then py_strip (py_replace ''```'' [] content)
              else content)"

text \<open>
  \<^verbatim>\<open>key in metadata\<close> and \<^verbatim>\<open>metadata[key] = value\<close> on whatever the parser
  returned: membership is a key lookup in a dictionary, an element test in a list and
  a substring test in a string, and raises on the other values; only a dictionary
  takes an assignment under a string key.
\<close>

fun py_in :: "string \<Rightarrow> json \<Rightarrow> error + bool" where
  "py_in key (JObj d) = Inr (has_key d key)"
| "py_in key (JList xs) = Inr (JStr key \<in> set xs)"
| "py_in key (JStr s) = Inr (str_contains key s)"
| "py_in key v = Inl TypeError"

fun set_item :: "json \<Rightarrow> string \<Rightarrow> json \<Rightarrow> error + json" where
  "set_item (JObj d) key v = Inr (JObj (AList.update key v d))"
| "set_item m key v = Inl TypeError"

text \<open>The loop over the keys of the default record that fills in what is missing.\<close>

fun fill_missing :: "(string \<times> json) list \<Rightarrow> json \<Rightarrow> error + json" where
  "fill_missing [] metadata = Inr metadata"
| "fill_missing ((key, dv) # rest) metadata =
     (case py_in key metadata of
        Inl err \<Rightarrow> Inl err
      | Inr True \<Rightarrow> fill_missing rest metadata
      | Inr False \<Rightarrow>
          (case set_item metadata key dv of
             Inl err \<Rightarrow> Inl err
           | Inr metadata' \<Rightarrow> fill_missing rest metadata'))"

text \<open>
  One pass through the body of the retry loop: the completion call, the cleanup, the
  parse and the fill. The inner handler takes \<^verbatim>\<open>JSONDecodeError\<close> only and puts
  the default record in place of the parsed value; any other exception of the parser
  goes on to the handler of the loop, as \<open>Inl\<close> does in general.
\<close>

definition attempt_once :: "env \<Rightarrow> string \<Rightarrow> world \<Rightarrow> (error + json) \<times> world" where
  "attempt_once e extracted_text w =
     (let prompt = build_prompt extracted_text;
          w1 = w\<lparr>calls := Suc (calls w), trace := trace w @ [Called prompt]\<rparr>
      in case generate_content e (calls w) prompt of
           Inl err \<Rightarrow> (Inl err, w1)
         | Inr text \<Rightarrow>
             (let content = clean_response text
              in case json_loads e content of
                   Inr metadata \<Rightarrow> (fill_missing get_default_metadata metadata, w1)
                 | Inl JSONDecodeError \<Rightarrow>
                     (fill_missing get_default_metadata (JObj get_default_metadata), w1)
                 | Inl err \<Rightarrow> (Inl err, w1)))"

text \<open>
  \<^verbatim>\<open>for attempt in range(max_retries)\<close>, with the delay carried along. A loop that
  runs out without returning makes the function return \<^verbatim>\<open>None\<close>.
\<close>

fun attempts :: "env \<Rightarrow> string \<Rightarrow> nat \<Rightarrow> nat list \<Rightarrow> nat \<Rightarrow> world \<Rightarrow> json \<times> world" where
  "attempts e extracted_text max_retries [] retry_delay w = (JNull, w)"
| "attempts e extracted_text max_retries (attempt # rest) retry_delay w =
     (case attempt_once e extracted_text w of
        (Inr metadata, w1) \<Rightarrow> (metadata, w1)
      | (Inl err, w1) \<Rightarrow>
          if attempt < max_retries - 1
          then attempts e extracted_text max_retries rest (retry_delay * 2) (sleep retry_delay w1)
          else (JObj get_default_metadata, w1))"

definition extract_metadata_from_pdf :: "env \<Rightarrow> string \<Rightarrow> world \<Rightarrow> json \<times> world" where
  "extract_metadata_from_pdf e pdf_path w =
     (let max_retries = 3;
          retry_delay = 2;
          extracted_text = extract_text_from_pdf e pdf_path 3
      in if extracted_text = [] then (JObj get_default_metadata, w)
         else attempts e extracted_text max_retries [0..<max_retries] retry_delay w)"

section \<open>The orchestrator\<close>

text \<open>
  The statements that print the record can raise: \<^verbatim>\<open>', '.join(...)\<close> wants an
  iterable of strings, and the abstract is measured with \<^verbatim>\<open>len\<close> and, beyond 200,
  sliced and extended by a string. The checks are made in the order of the
  statements and the first failure is the exception raised.
\<close>

fun is_str :: "json \<Rightarrow> bool" where
  "is_str (JStr s) = True"
| "is_str v = False"

fun join_check :: "json \<Rightarrow> error + unit" where
  "join_check (JList xs) = (if list_all is_str xs then Inr () else Inl TypeError)"
| "join_check (JStr s) = Inr ()"
| "join_check (JObj d) = Inr ()"
| "join_check v = Inl TypeError"

fun abstract_check :: "json \<Rightarrow> error + unit" where
  "abstract_check (JStr s) = Inr ()"
| "abstract_check (JList xs) = (if length xs > 200 then Inl TypeError else Inr ())"
| "abstract_check (JObj d) = (if length d > 200 then Inl TypeError else Inr ())"
| "abstract_check v = Inl TypeError"

definition get_item :: "(string \<times> json) list \<Rightarrow> string \<Rightarrow> error + json" where
  "get_item d key = (case map_of d key of None \<Rightarrow> Inl KeyError | Some v \<Rightarrow> Inr v)"

definition and_then :: "error + json \<Rightarrow> (json \<Rightarrow> error + unit) \<Rightarrow> error + unit" where
  "and_then r f = (case r of Inl err \<Rightarrow> Inl err | Inr v \<Rightarrow> f v)"

fun first_error :: "(error + unit) list \<Rightarrow> error + unit" where
  "first_error [] = Inr ()"
| "first_error (Inl err # rs) = Inl err"
| "first_error (Inr u # rs) = first_error rs"

definition print_info :: "(string \<times> json) list \<Rightarrow> error + unit" where
  "print_info metadata =
     first_error
       [and_then (get_item metadata ''filename'') (\<lambda>v. Inr ()),
        and_then (get_item metadata ''relative_path'') (\<lambda>v. Inr ()),
        and_then (get_item metadata ''title'') (\<lambda>v. Inr ()),
        and_then (get_item metadata ''authors'') join_check,
        and_then (get_item metadata ''year'') (\<lambda>v. Inr ()),
        and_then (get_item metadata ''journal'') (\<lambda>v. Inr ()),
        and_then (get_item metadata ''doi'') (\<lambda>v. Inr ()),
        and_then (get_item metadata ''keywords'') join_check,
        and_then (get_item metadata ''abstract'') abstract_check]"

text \<open>
  The body of the \<^verbatim>\<open>try\<close> for one file. It returns the outcome, the list
  \<^verbatim>\<open>results\<close> held in memory, and the state. The three provenance assignments
  raise on anything but a dictionary.
\<close>

definition process_file :: "env \<Rightarrow> pdf_file \<Rightarrow> json \<Rightarrow> world \<Rightarrow> (error + unit) \<times> json \<times> world" where
  "process_file e p results w =
     (case extract_metadata_from_pdf e (full_path p) w of
        (JObj d, w1) \<Rightarrow>
          (let d = AList.update ''filename'' (JStr (file_name p)) d;
               d = AList.update ''relative_path'' (JStr (rel_path p)) d;
               d = AList.update ''full_path'' (JStr (full_path p)) d;
               metadata = normalize_metadata (py_repr e) d
           in case print_info metadata of
                Inl err \<Rightarrow> (Inl err, results, w1)
              | Inr u \<Rightarrow>
                  (case results of
                     JList rs \<Rightarrow>
                       (let results' = JList (rs @ [JObj metadata])
                        in if io_fails e metadata_path then (Inl OSError, results', w1)
                           else (let w2 = (write_file metadata_path (Doc results') w1)
                                            \<lparr>trace := trace w1 @ [StoreWritten results']\<rparr>
                                 in case save_processed_file e (rel_path p) w2 of
                                      (r, w3) \<Rightarrow> (r, results', w3)))
                   | v \<Rightarrow> (Inl AttributeError, results, w1)))
      | (v, w1) \<Rightarrow> (Inl TypeError, results, w1))"




section \<open>Reset\<close>

text \<open>
  \<^verbatim>\<open>os.remove\<close> of the ledger and \<^verbatim>\<open>os.rename\<close> of the store to the backup name,
  which takes the place of a file of that name.
\<close>

definition backup_name :: "int \<Rightarrow> string" where
  "backup_name t = ''metadata_backup_'' @ string_of_int t @ ''.json''"

definition backup_store :: "env \<Rightarrow> world \<Rightarrow> (error + unit) \<times> world" where
  "backup_store e w =
     (case files w metadata_path of
        None \<Rightarrow> (Inr (), w)
      | Some d \<Rightarrow>
          if io_fails e metadata_path \<or> io_fails e (backup_name (clock w)) then (Inl OSError, w)
          else (Inr (), w\<lparr>files := ((files w)(metadata_path := None))(backup_name (clock w) \<mapsto> d)\<rparr>))"

definition reset_processing_status :: "env \<Rightarrow> world \<Rightarrow> (error + unit) \<times> world" where
  "reset_processing_status e w =
     (if files w processed_files_path \<noteq> None
      then (if io_fails e processed_files_path then (Inl OSError, w)
            else backup_store e (w\<lparr>files := (files w)(processed_files_path := None)\<rparr>))
      else backup_store e w)"

section \<open>Notions used in the statements\<close>

text \<open>The record of a file once the three provenance fields are attached.\<close>

definition provenance :: "pdf_file \<Rightarrow> (string \<times> json) list \<Rightarrow> (string \<times> json) list" where
  "provenance p d =
     AList.update ''full_path'' (JStr (full_path p))
       (AList.update ''relative_path'' (JStr (rel_path p))
          (AList.update ''filename'' (JStr (file_name p)) d))"

text \<open>The default record with the three provenance fields of a file.\<close>

definition default_record :: "pdf_file \<Rightarrow> json" where
  "default_record p =
     JObj (get_default_metadata @
           [(''filename'', JStr (file_name p)),
            (''relative_path'', JStr (rel_path p)),
            (''full_path'', JStr (full_path p))])"







section \<open>Sample environments\<close>

text \<open>
  Concrete inputs on which the statements below are run: a directory with one PDF
  whose first page reads \<^verbatim>\<open>Title\<close> and one PDF that cannot be opened, a parser and
  a completion service given as arguments, no failing path, and an empty working
  directory.
\<close>

definition sample_pdf :: pdf_file where
  "sample_pdf = \<lparr>full_path = ''papers/a.pdf'', file_name = ''a.pdf'', rel_path = ''a.pdf''\<rparr>"

definition broken_pdf :: pdf_file where
  "broken_pdf = \<lparr>full_path = ''papers/b.pdf'', file_name = ''b.pdf'', rel_path = ''b.pdf''\<rparr>"

definition sample_env :: "(string \<Rightarrow> error + json) \<Rightarrow> (nat \<Rightarrow> string \<Rightarrow> error + string) \<Rightarrow> env" where
  "sample_env loads gen =
     \<lparr>json_loads = loads,
      py_repr = (\<lambda>v. []),
      pdf_pages = (\<lambda>path. if path = ''papers/a.pdf'' then Some [Some ''Title''] else None),
      generate_content = gen,
      rglob = (\<lambda>d. [sample_pdf, broken_pdf]),
      io_fails = (\<lambda>path. False)\<rparr>"

definition sample_world :: world where
  "sample_world = \<lparr>files = Map.empty, calls = 0, clock = 1700000000, trace = []\<rparr>"

text \<open>
  A response that is not JSON and makes \<^verbatim>\<open>json.loads\<close> raise \<^verbatim>\<open>RecursionError\<close>:
  a hundred thousand opening brackets. The parser of the sample raises this on that
  text and \<^verbatim>\<open>JSONDecodeError\<close> on any other.
\<close>

definition deep_brackets :: string where
  "deep_brackets = replicate 100000 (CHR ''['')"

definition rejecting_loads :: "string \<Rightarrow> error + json" where
  "rejecting_loads s = (if s = deep_brackets then Inl RecursionError else Inl JSONDecodeError)"

text \<open>
  A working directory after a run over the sample PDF and a reset an hour earlier that
  left a backup with the same contents.
\<close>

definition world_with_backup :: world where
  "world_with_backup =
     \<lparr>files = [''processed_files.json'' \<mapsto> Doc (JList [JStr ''a.pdf'']),
               ''metadata.json'' \<mapsto> Doc (JList [default_record sample_pdf]),
               ''metadata_backup_1700000000.json'' \<mapsto> Doc (JList [default_record sample_pdf])],
      calls = 0, clock = 1700003600, trace = []\<rparr>"

section \<open>Properties of the normalizer\<close>

lemma py_replace_char: "py_replace [a] [b] s = map (\<lambda>c. if c = a then b else c) s"
  by (induction s) (auto simp: startswith_def)

lemma str_contains_char: "str_contains [a] s = (a \<in> set s)"
  by (induction s) (auto simp: startswith_def)

lemma py_split_semicolons:
  "py_split CHR '','' (map (\<lambda>c. if c = CHR '';'' then CHR '','' else c) s) = split_on_both s"
  by (induction s) (auto simp: Let_def)

lemma split_separated_eq:
  "split_separated s = filter (\<lambda>a. a \<noteq> []) (map py_strip (split_on_both s))"
  by (simp add: split_separated_def py_replace_char py_split_semicolons)

lemma has_separator_eq: "has_separator s = (CHR '','' \<in> set s \<or> CHR '';'' \<in> set s)"
  by (simp add: has_separator_def str_contains_char)

lemma map_of_normalize_authors:
  "map_of (normalize_metadata rp m) ''authors'' = map_option (normalize_authors rp) (map_of m ''authors'')"
  by (simp add: normalize_metadata_def update_conv' split: option.splits)

lemma map_of_normalize_keywords:
  "map_of (normalize_metadata rp m) ''keywords'' = map_option (normalize_keywords rp) (map_of m ''keywords'')"
  by (simp add: normalize_metadata_def update_conv' split: option.splits)


text \<open>
  C4, as the code has it. An authors string with a comma or a semicolon is cut at
  both separators, each piece stripped and the empty pieces dropped; a string with
  neither becomes a one-element list, and the empty string becomes the list of
  \<^verbatim>\<open>"unknown"\<close>. The example of the claim is cut at its commas too, so
  \<^verbatim>\<open>"Doe, J.; Smith, A."\<close> gives four pieces, not two.
\<close>

theorem normalize_authors_of_string:
  assumes "map_of m ''authors'' = Some (JStr s)"
  shows "map_of (normalize_metadata rp m) ''authors'' =
           Some (if CHR '','' \<in> set s \<or> CHR '';'' \<in> set s
                 then JList (map JStr (filter (\<lambda>a. a \<noteq> []) (map py_strip (split_on_both s))))
                 else if s \<noteq> [] then JList [JStr s] else JList [JStr ''unknown''])"
  using assms by (simp add: map_of_normalize_authors has_separator_eq split_separated_eq)

theorem normalize_authors_of_string_witness:
  "map_of (normalize_metadata (\<lambda>v. []) [(''authors'', JStr ''Doe, J.; Smith, A.'')]) ''authors'' =
     Some (JList [JStr ''Doe'', JStr ''J.'', JStr ''Smith'', JStr ''A.''])
   \<and> map_of (normalize_metadata (\<lambda>v. []) [(''authors'', JStr (''Doe,'' @ [CHR 0xA0] @ ''Smith''))]) ''authors'' =
       Some (JList [JStr ''Doe'', JStr ''Smith''])
   \<and> map_of (normalize_metadata (\<lambda>v. []) [(''authors'', JStr [])]) ''authors'' =
       Some (JList [JStr ''unknown''])"
  using normalize_authors_of_string
          [of "[(''authors'', JStr ''Doe, J.; Smith, A.'')]" "''Doe, J.; Smith, A.''" "\<lambda>v. []"]
        normalize_authors_of_string
          [of "[(''authors'', JStr (''Doe,'' @ [CHR 0xA0] @ ''Smith''))]" "''Doe,'' @ [CHR 0xA0] @ ''Smith''" "\<lambda>v. []"]
        normalize_authors_of_string [of "[(''authors'', JStr [])]" "[]" "\<lambda>v. []"]
  by (simp add: py_strip_def py_isspace_def)

text \<open>C4 as the claim states its example: the two-element list is not what is returned.\<close>

theorem normalize_authors_example_counterexample:
  "map_of (normalize_metadata (\<lambda>v. []) [(''authors'', JStr ''Doe, J.; Smith, A.'')]) ''authors'' \<noteq>
     Some (JList [JStr ''Doe, J.'', JStr ''Smith, A.''])"
  by (simp add: normalize_metadata_def has_separator_def split_separated_def startswith_def
        py_strip_def py_isspace_def)

text \<open>
  C10 at two inputs. An authors string made of separators only gives the empty list,
  which a second application turns into the list of \<^verbatim>\<open>"unknown"\<close>; an author
  dictionary whose name is the number 5 gives the list of that number, which a second
  application turns into the list of the string \<^verbatim>\<open>"5"\<close>. So one application yields
  neither a non-empty list nor a list of strings, and a second one changes the record.
\<close>

theorem normalize_metadata_twice_differs:
  "normalize_metadata rp [(''authors'', JStr '','')] = [(''authors'', JList [])]
   \<and> normalize_metadata rp (normalize_metadata rp [(''authors'', JStr '','')])
       = [(''authors'', JList [JStr ''unknown''])]
   \<and> normalize_metadata rp [(''authors'', JList [JObj [(''name'', JInt 5)]])]
       = [(''authors'', JList [JInt 5])]
   \<and> normalize_metadata rp (normalize_metadata rp [(''authors'', JList [JObj [(''name'', JInt 5)]])])
       = [(''authors'', JList [JStr ''5''])]"
  by (simp add: normalize_metadata_def has_separator_def split_separated_def startswith_def
        py_strip_def py_isspace_def author_name_def dict_get_def string_of_int_def string_of_nat.simps)

section \<open>Properties of the extraction client\<close>

lemma upt_0_3: "[0..<3] = [0, Suc 0, 2]"
  by (simp add: upt_rec)

lemma sample_text:
  "extract_text_from_pdf (sample_env loads gen) ''papers/a.pdf'' 3 = ''Title''"
  by (simp add: sample_env_def extract_text_from_pdf_def py_strip_def py_isspace_def)

lemma broken_text:
  "extract_text_from_pdf (sample_env loads gen) ''papers/b.pdf'' 3 = []"
  by (simp add: sample_env_def extract_text_from_pdf_def)

lemma attempt_once_error:
  assumes "generate_content e (calls w) (build_prompt t) = Inl err"
  shows "attempt_once e t w =
           (Inl err, w\<lparr>calls := Suc (calls w), trace := trace w @ [Called (build_prompt t)]\<rparr>)"
  using assms by (simp add: attempt_once_def Let_def)

lemma fill_missing_default:
  "fill_missing get_default_metadata (JObj get_default_metadata) = Inr (JObj get_default_metadata)"
  by (simp add: get_default_metadata_def has_key_def)

lemma attempt_once_parse_failure:
  assumes "generate_content e (calls w) (build_prompt t) = Inr resp"
      and "json_loads e (clean_response resp) = Inl JSONDecodeError"
  shows "attempt_once e t w =
           (Inr (JObj get_default_metadata),
            w\<lparr>calls := Suc (calls w), trace := trace w @ [Called (build_prompt t)]\<rparr>)"
  using assms by (simp add: attempt_once_def Let_def fill_missing_default)

lemma attempt_once_parser_raises:
  assumes "generate_content e (calls w) (build_prompt t) = Inr resp"
      and "json_loads e (clean_response resp) = Inl err"
      and "err \<noteq> JSONDecodeError"
  shows "attempt_once e t w =
           (Inl err, w\<lparr>calls := Suc (calls w), trace := trace w @ [Called (build_prompt t)]\<rparr>)"
  using assms by (cases err) (simp_all add: attempt_once_def Let_def)

text \<open>
  C3. When the PDF has text and every completion call raises, the client makes three
  calls, sleeps 2 after the first and 4 after the second, and returns the default
  record; the history gains exactly these five effects.
\<close>

theorem retry_bound:
  assumes nonempty: "extract_text_from_pdf e pdf_path 3 \<noteq> []"
      and fails: "\<forall>n prompt. \<exists>err. generate_content e n prompt = Inl err"
  shows "extract_metadata_from_pdf e pdf_path w =
           (JObj [(''title'', JStr ''unknown''), (''authors'', JList [JStr ''unknown'']),
                  (''year'', JStr ''unknown''), (''journal'', JStr ''unknown''),
                  (''doi'', JStr ''unknown''), (''keywords'', JList []),
                  (''abstract'', JStr ''unknown'')],
            w\<lparr>calls := calls w + 3, clock := clock w + 6,
              trace := trace w @ [Called (build_prompt (extract_text_from_pdf e pdf_path 3)), Slept 2,
                                  Called (build_prompt (extract_text_from_pdf e pdf_path 3)), Slept 4,
                                  Called (build_prompt (extract_text_from_pdf e pdf_path 3))]\<rparr>)"
proof -
  define t where "t = extract_text_from_pdf e pdf_path 3"
  have step: "\<exists>err. attempt_once e t v =
                 (Inl err, v\<lparr>calls := Suc (calls v), trace := trace v @ [Called (build_prompt t)]\<rparr>)" for v
  proof -
    from fails obtain err where "generate_content e (calls v) (build_prompt t) = Inl err" by blast
    then show ?thesis using attempt_once_error by blast
  qed
  define w1 where "w1 = w\<lparr>calls := Suc (calls w), trace := trace w @ [Called (build_prompt t)]\<rparr>"
  define w2 where "w2 = sleep 2 w1"
  define w3 where "w3 = w2\<lparr>calls := Suc (calls w2), trace := trace w2 @ [Called (build_prompt t)]\<rparr>"
  define w4 where "w4 = sleep 4 w3"
  define w5 where "w5 = w4\<lparr>calls := Suc (calls w4), trace := trace w4 @ [Called (build_prompt t)]\<rparr>"
  from step [of w] obtain e1 where a1: "attempt_once e t w = (Inl e1, w1)" unfolding w1_def by blast
  from step [of w2] obtain e2 where a2: "attempt_once e t w2 = (Inl e2, w3)" unfolding w3_def by blast
  from step [of w4] obtain e3 where a3: "attempt_once e t w4 = (Inl e3, w5)" unfolding w5_def by blast
  have "attempts e t 3 [0, Suc 0, 2] 2 w = (JObj get_default_metadata, w5)"
    using a1 a2 a3 by (simp add: w2_def w4_def)
  moreover have "w5 = w\<lparr>calls := calls w + 3, clock := clock w + 6,
              trace := trace w @ [Called (build_prompt t), Slept 2, Called (build_prompt t), Slept 4,
                                  Called (build_prompt t)]\<rparr>"
    by (simp add: w5_def w4_def w3_def w2_def w1_def sleep_def)
  ultimately show ?thesis using nonempty
    by (simp add: extract_metadata_from_pdf_def Let_def upt_0_3 t_def get_default_metadata_def)
qed

theorem retry_bound_witness:
  "extract_text_from_pdf (sample_env (\<lambda>s. Inl JSONDecodeError) (\<lambda>n prompt. Inl APIError)) ''papers/a.pdf'' 3 = ''Title''
   \<and> extract_metadata_from_pdf (sample_env (\<lambda>s. Inl JSONDecodeError) (\<lambda>n prompt. Inl APIError)) ''papers/a.pdf'' sample_world =
       (JObj [(''title'', JStr ''unknown''), (''authors'', JList [JStr ''unknown'']),
              (''year'', JStr ''unknown''), (''journal'', JStr ''unknown''),
              (''doi'', JStr ''unknown''), (''keywords'', JList []),
              (''abstract'', JStr ''unknown'')],
        \<lparr>files = Map.empty, calls = 3, clock = 1700000006,
         trace = [Called (build_prompt ''Title''), Slept 2, Called (build_prompt ''Title''), Slept 4,
                  Called (build_prompt ''Title'')]\<rparr>)"
proof -
  have "\<forall>n prompt. \<exists>err. generate_content (sample_env (\<lambda>s. Inl JSONDecodeError) (\<lambda>n prompt. Inl APIError)) n prompt = Inl err"
    by (simp add: sample_env_def)
  from retry_bound [OF _ this, of "''papers/a.pdf''" sample_world] show ?thesis
    by (simp add: sample_text sample_world_def)
qed

text \<open>
  C5, as the code has it. When the parser rejects the cleaned text of a response with
  \<^verbatim>\<open>JSONDecodeError\<close>, that attempt returns the default record: whatever the attempt
  number and the attempts left, the loop makes this one call, sleeps not at all, and
  ends; so does the whole client when the response to its first call is rejected so.
  When the parser raises an exception of another class, the attempt counts as failed:
  before the last attempt the loop sleeps, doubles the delay and goes on, and at the
  last attempt it returns the default record.
\<close>

theorem parse_failure_no_retry:
  "(generate_content e (calls w) (build_prompt extracted_text) = Inr resp
      \<and> json_loads e (clean_response resp) = Inl JSONDecodeError \<longrightarrow>
        attempts e extracted_text max_retries (attempt # rest) retry_delay w =
          (JObj get_default_metadata,
           w\<lparr>calls := Suc (calls w), trace := trace w @ [Called (build_prompt extracted_text)]\<rparr>)
        \<and> (extract_text_from_pdf e pdf_path 3 = extracted_text \<and> extracted_text \<noteq> [] \<longrightarrow>
             extract_metadata_from_pdf e pdf_path w =
               (JObj get_default_metadata,
                w\<lparr>calls := Suc (calls w), trace := trace w @ [Called (build_prompt extracted_text)]\<rparr>)))
   \<and> (generate_content e (calls w) (build_prompt extracted_text) = Inr resp
      \<and> json_loads e (clean_response resp) = Inl err \<and> err \<noteq> JSONDecodeError \<longrightarrow>
        attempts e extracted_text max_retries (attempt # rest) retry_delay w =
          (if attempt < max_retries - 1
           then attempts e extracted_text max_retries rest (retry_delay * 2)
                  (sleep retry_delay
                     (w\<lparr>calls := Suc (calls w), trace := trace w @ [Called (build_prompt extracted_text)]\<rparr>))
           else (JObj get_default_metadata,
                 w\<lparr>calls := Suc (calls w), trace := trace w @ [Called (build_prompt extracted_text)]\<rparr>)))"
proof (intro conjI impI)
  assume a: "generate_content e (calls w) (build_prompt extracted_text) = Inr resp
      \<and> json_loads e (clean_response resp) = Inl JSONDecodeError"
  then have once: "attempt_once e extracted_text w =
           (Inr (JObj get_default_metadata),
            w\<lparr>calls := Suc (calls w), trace := trace w @ [Called (build_prompt extracted_text)]\<rparr>)"
    using attempt_once_parse_failure by blast
  then show "attempts e extracted_text max_retries (attempt # rest) retry_delay w =
          (JObj get_default_metadata,
           w\<lparr>calls := Suc (calls w), trace := trace w @ [Called (build_prompt extracted_text)]\<rparr>)"
    by simp
  assume "extract_text_from_pdf e pdf_path 3 = extracted_text \<and> extracted_text \<noteq> []"
  with once show "extract_metadata_from_pdf e pdf_path w =
               (JObj get_default_metadata,
                w\<lparr>calls := Suc (calls w), trace := trace w @ [Called (build_prompt extracted_text)]\<rparr>)"
    by (simp add: extract_metadata_from_pdf_def Let_def upt_0_3)
next
  assume "generate_content e (calls w) (build_prompt extracted_text) = Inr resp
      \<and> json_loads e (clean_response resp) = Inl err \<and> err \<noteq> JSONDecodeError"
  then have "attempt_once e extracted_text w =
           (Inl err, w\<lparr>calls := Suc (calls w), trace := trace w @ [Called (build_prompt extracted_text)]\<rparr>)"
    using attempt_once_parser_raises by blast
  then show "attempts e extracted_text max_retries (attempt # rest) retry_delay w =
          (if attempt < max_retries - 1
           then attempts e extracted_text max_retries rest (retry_delay * 2)
                  (sleep retry_delay
                     (w\<lparr>calls := Suc (calls w), trace := trace w @ [Called (build_prompt extracted_text)]\<rparr>))
           else (JObj get_default_metadata,
                 w\<lparr>calls := Suc (calls w), trace := trace w @ [Called (build_prompt extracted_text)]\<rparr>))"
    by simp
qed

lemma startswith_replicate: "c \<noteq> d \<Longrightarrow> \<not> startswith (replicate n c) (d # ds)"
  by (cases n) (simp_all add: startswith_def)

lemma clean_deep_brackets: "clean_response deep_brackets = deep_brackets"
proof -
  have "\<not> py_isspace (CHR ''['')" by (simp add: py_isspace_def)
  then have "py_strip deep_brackets = deep_brackets"
    by (simp add: py_strip_def deep_brackets_def)
  moreover have "\<not> startswith deep_brackets ''```''"
    unfolding deep_brackets_def by (rule startswith_replicate) simp
  moreover have "\<not> startswith deep_brackets ''```json''"
    unfolding deep_brackets_def by (rule startswith_replicate) simp
  ultimately show ?thesis by (simp add: clean_response_def)
qed

lemma no_json_not_deep: "''no json here'' \<noteq> deep_brackets"
proof
  assume eq: "''no json here'' = deep_brackets"
  have "CHR ''n'' \<in> set ''no json here''" by simp
  then have "CHR ''n'' \<in> set (replicate 100000 (CHR ''[''))"
    unfolding eq deep_brackets_def .
  then show False by simp
qed

theorem parse_failure_no_retry_witness:
  "extract_metadata_from_pdf (sample_env rejecting_loads (\<lambda>n prompt. Inr ''no json here'')) ''papers/a.pdf'' sample_world =
     (JObj get_default_metadata,
      \<lparr>files = Map.empty, calls = 1, clock = 1700000000, trace = [Called (build_prompt ''Title'')]\<rparr>)
   \<and> attempts (sample_env rejecting_loads (\<lambda>n prompt. Inr deep_brackets)) ''Title'' 3 [2] 8 sample_world =
       (JObj get_default_metadata,
        \<lparr>files = Map.empty, calls = 1, clock = 1700000000, trace = [Called (build_prompt ''Title'')]\<rparr>)"
proof -
  have a: "generate_content (sample_env rejecting_loads (\<lambda>n prompt. Inr ''no json here'')) (calls sample_world)
          (build_prompt ''Title'') = Inr ''no json here''"
    and b: "json_loads (sample_env rejecting_loads (\<lambda>n prompt. Inr ''no json here''))
          (clean_response ''no json here'') = Inl JSONDecodeError"
    using no_json_not_deep
    by (simp_all add: sample_env_def rejecting_loads_def clean_response_def py_strip_def py_isspace_def
          startswith_def)
  have c: "generate_content (sample_env rejecting_loads (\<lambda>n prompt. Inr deep_brackets)) (calls sample_world)
          (build_prompt ''Title'') = Inr deep_brackets"
    and d: "json_loads (sample_env rejecting_loads (\<lambda>n prompt. Inr deep_brackets))
          (clean_response deep_brackets) = Inl RecursionError"
    by (simp_all add: sample_env_def rejecting_loads_def clean_deep_brackets)
  from parse_failure_no_retry
         [of "sample_env rejecting_loads (\<lambda>n prompt. Inr ''no json here'')" sample_world "''Title''"
             "''no json here''" 3 0 "[]" 2 "''papers/a.pdf''"] a b
  have first: "extract_metadata_from_pdf (sample_env rejecting_loads (\<lambda>n prompt. Inr ''no json here''))
      ''papers/a.pdf'' sample_world =
     (JObj get_default_metadata,
      sample_world\<lparr>calls := Suc (calls sample_world),
                   trace := trace sample_world @ [Called (build_prompt ''Title'')]\<rparr>)"
    by (simp add: sample_text)
  from parse_failure_no_retry
         [of "sample_env rejecting_loads (\<lambda>n prompt. Inr deep_brackets)" sample_world "''Title''"
             deep_brackets 3 2 "[]" 8 _ RecursionError] c d
  have second: "attempts (sample_env rejecting_loads (\<lambda>n prompt. Inr deep_brackets)) ''Title'' 3 [2] 8 sample_world =
       (JObj get_default_metadata,
        sample_world\<lparr>calls := Suc (calls sample_world),
                     trace := trace sample_world @ [Called (build_prompt ''Title'')]\<rparr>)"
    by simp
  from first second show ?thesis by (simp add: sample_world_def)
qed

text \<open>
  C5 as the claim states it: the response is not JSON, the parser fails on it with
  \<^verbatim>\<open>RecursionError\<close>, and the client makes three calls with delays of 2 and 4
  between them before it returns the default record.
\<close>

theorem parse_failure_retry_counterexample:
  "json_loads (sample_env rejecting_loads (\<lambda>n prompt. Inr deep_brackets)) (clean_response deep_brackets)
     = Inl RecursionError
   \<and> extract_metadata_from_pdf (sample_env rejecting_loads (\<lambda>n prompt. Inr deep_brackets)) ''papers/a.pdf'' sample_world =
       (JObj get_default_metadata,
        \<lparr>files = Map.empty, calls = 3, clock = 1700000006,
         trace = [Called (build_prompt ''Title''), Slept 2, Called (build_prompt ''Title''), Slept 4,
                  Called (build_prompt ''Title'')]\<rparr>)"
proof -
  define E where "E = sample_env rejecting_loads (\<lambda>n prompt. Inr deep_brackets)"
  have l: "json_loads E (clean_response deep_brackets) = Inl RecursionError"
    by (simp add: E_def sample_env_def rejecting_loads_def clean_deep_brackets)
  have g: "generate_content E n (build_prompt ''Title'') = Inr deep_brackets" for n
    by (simp add: E_def sample_env_def)
  have once: "attempt_once E ''Title'' v =
                (Inl RecursionError, v\<lparr>calls := Suc (calls v), trace := trace v @ [Called (build_prompt ''Title'')]\<rparr>)" for v
    by (rule attempt_once_parser_raises [OF g l]) simp
  have "attempts E ''Title'' 3 [0, Suc 0, 2] 2 sample_world =
       (JObj get_default_metadata,
        \<lparr>files = Map.empty, calls = 3, clock = 1700000006,
         trace = [Called (build_prompt ''Title''), Slept 2, Called (build_prompt ''Title''), Slept 4,
                  Called (build_prompt ''Title'')]\<rparr>)"
    by (simp add: once sleep_def sample_world_def)
  then show ?thesis
    using l unfolding E_def
    by (simp add: extract_metadata_from_pdf_def sample_text upt_0_3)
qed

lemma fill_missing_obj:
  "\<exists>d'. fill_missing ds (JObj d) = Inr (JObj d') \<and>
        (\<forall>k. map_of d' k = (if has_key d k then map_of d k else map_of ds k))"
proof (induction ds arbitrary: d)
  case Nil
  show ?case by (auto simp: has_key_def)
next
  case (Cons kv ds)
  obtain key dv where kv: "kv = (key, dv)" by (cases kv)
  show ?case
  proof (cases "has_key d key")
    case True
    from Cons.IH [of d] obtain d' where
      "fill_missing ds (JObj d) = Inr (JObj d')"
      "\<forall>k. map_of d' k = (if has_key d k then map_of d k else map_of ds k)" by blast
    with True kv show ?thesis by (auto simp: has_key_def)
  next
    case False
    from Cons.IH [of "AList.update key dv d"] obtain d' where
      "fill_missing ds (JObj (AList.update key dv d)) = Inr (JObj d')"
      "\<forall>k. map_of d' k = (if has_key (AList.update key dv d) k
                            then map_of (AList.update key dv d) k else map_of ds k)"
      by blast
    with False kv show ?thesis by (auto simp: has_key_def update_conv')
  qed
qed

text \<open>
  C8. When a response parses to a JSON object, at whatever attempt of the retry loop
  and in whatever state, the loop ends with an object in which every key of the parsed
  object has the value it had there, of whatever type, and every other key has the
  value of the default record, which has the seven target fields and no other. The
  same holds of the client when the response to its first call parses so.
\<close>

theorem fill_missing_frame:
  assumes resp: "generate_content e (calls w) (build_prompt extracted_text) = Inr resp"
      and parsed: "json_loads e (clean_response resp) = Inr (JObj d)"
  shows "\<exists>d'. (\<forall>k. map_of d' k = (if has_key d k then map_of d k else map_of get_default_metadata k))
              \<and> fst (attempts e extracted_text max_retries (attempt # rest) retry_delay w) = JObj d'
              \<and> (extract_text_from_pdf e pdf_path 3 = extracted_text \<and> extracted_text \<noteq> [] \<longrightarrow>
                   fst (extract_metadata_from_pdf e pdf_path w) = JObj d')"
proof -
  from fill_missing_obj [of get_default_metadata d] obtain d' where
    f: "fill_missing get_default_metadata (JObj d) = Inr (JObj d')"
    and m: "\<forall>k. map_of d' k = (if has_key d k then map_of d k else map_of get_default_metadata k)"
    by blast
  have once: "attempt_once e extracted_text w =
          (Inr (JObj d'),
           w\<lparr>calls := Suc (calls w), trace := trace w @ [Called (build_prompt extracted_text)]\<rparr>)"
    using resp parsed f by (simp add: attempt_once_def Let_def)
  then have "fst (attempts e extracted_text max_retries (attempt # rest) retry_delay w) = JObj d'"
    by simp
  moreover have "extract_text_from_pdf e pdf_path 3 = extracted_text \<and> extracted_text \<noteq> [] \<longrightarrow>
                   fst (extract_metadata_from_pdf e pdf_path w) = JObj d'"
    using once by (auto simp: extract_metadata_from_pdf_def Let_def upt_0_3)
  ultimately show ?thesis using m by blast
qed

theorem fill_missing_frame_witness:
  "\<exists>d'. fst (extract_metadata_from_pdf
               (sample_env (\<lambda>s. Inr (JObj [(''title'', JInt 5), (''pages'', JNull)]))
                           (\<lambda>n prompt. if n = 0 then Inl APIError else Inr ''{}''))
               ''papers/a.pdf'' sample_world) = JObj d'
        \<and> map_of d' ''title'' = Some (JInt 5)
        \<and> map_of d' ''pages'' = Some JNull
        \<and> map_of d' ''authors'' = Some (JList [JStr ''unknown''])
        \<and> map_of d' ''keywords'' = Some (JList [])
        \<and> map_of d' ''volume'' = None"
proof -
  define E where "E = sample_env (\<lambda>s. Inr (JObj [(''title'', JInt 5), (''pages'', JNull)]))
                                 (\<lambda>n prompt. if n = 0 then Inl APIError else Inr ''{}'')"
  define w1 where "w1 = sample_world\<lparr>calls := Suc (calls sample_world),
                                     trace := trace sample_world @ [Called (build_prompt ''Title'')]\<rparr>"
  have first: "attempt_once E ''Title'' sample_world = (Inl APIError, w1)"
    unfolding w1_def by (rule attempt_once_error) (simp add: E_def sample_env_def sample_world_def)
  have h2: "generate_content E (calls (sleep 2 w1)) (build_prompt ''Title'') = Inr ''{}''"
    by (simp add: E_def sample_env_def w1_def sleep_def sample_world_def)
  have h3: "json_loads E (clean_response ''{}'') = Inr (JObj [(''title'', JInt 5), (''pages'', JNull)])"
    by (simp add: E_def sample_env_def)
  from fill_missing_frame [OF h2 h3, of 3 "Suc 0" "[2]" 4] obtain d' where
    m: "\<forall>k. map_of d' k = (if has_key [(''title'', JInt 5), (''pages'', JNull)] k
                          then map_of [(''title'', JInt 5), (''pages'', JNull)] k
                          else map_of get_default_metadata k)"
    and r: "fst (attempts E ''Title'' 3 [Suc 0, 2] 4 (sleep 2 w1)) = JObj d'"
    by blast
  have t: "extract_text_from_pdf E ''papers/a.pdf'' 3 = ''Title''"
    by (simp add: E_def sample_text)
  have "fst (extract_metadata_from_pdf E ''papers/a.pdf'' sample_world) = JObj d'"
    using first r by (simp add: extract_metadata_from_pdf_def t upt_0_3)
  with m show ?thesis
    unfolding E_def by (intro exI [of _ d']) (simp add: has_key_def get_default_metadata_def)
qed

section \<open>Properties of the ledger\<close>

lemma paths_differ: "processed_files_path \<noteq> metadata_path"
  by (simp add: processed_files_path_def metadata_path_def)




lemma set_add_keeps: "set s \<subseteq> set (set_add s x)"
  by (auto simp: set_add_def)








lemma save_processed_file_cases:
  assumes "save_processed_file e f w = (r, w')"
  shows "(\<exists>err. r = Inl err \<and> w' = w)
         \<or> (r = Inr () \<and> (\<exists>L. load_processed_files w = Inr L
               \<and> w' = w\<lparr>files := (files w)(processed_files_path \<mapsto> Doc (JList (set_add L (JStr f)))),
                        trace := trace w @ [LedgerWritten f (JList (set_add L (JStr f)))]\<rparr>))"
  using assms
  by (auto simp: save_processed_file_def Let_def write_file_def split: sum.splits if_splits)

section \<open>Properties of the orchestrator\<close>




lemma process_file_obj:
  assumes ex: "extract_metadata_from_pdf e (full_path p) w = (JObj d, w1)"
  shows "process_file e p results w =
     (let metadata = normalize_metadata (py_repr e) (provenance p d)
      in case print_info metadata of
           Inl err \<Rightarrow> (Inl err, results, w1)
         | Inr u \<Rightarrow>
            (case results of
               JList rs \<Rightarrow>
                 (let results' = JList (rs @ [JObj metadata])
                  in if io_fails e metadata_path then (Inl OSError, results', w1)
                     else (case save_processed_file e (rel_path p)
                                  ((write_file metadata_path (Doc results') w1)
                                     \<lparr>trace := trace w1 @ [StoreWritten results']\<rparr>) of
                             (r, w3) \<Rightarrow> (r, results', w3)))
             | v \<Rightarrow> (Inl AttributeError, results, w1)))"
  using ex
  by (simp add: process_file_def provenance_def Let_def split: sum.splits json.splits prod.splits)














lemma sample_io_fails: "io_fails (sample_env loads gen) path = False"
  by (simp add: sample_env_def)









lemma normalize_default:
  "JObj (normalize_metadata rp (provenance p get_default_metadata)) = default_record p"
  by (simp add: normalize_metadata_def provenance_def get_default_metadata_def default_record_def)

lemma print_default:
  "print_info (normalize_metadata rp (provenance p get_default_metadata)) = Inr ()"
  using normalize_default [of rp p]
  by (simp add: default_record_def print_info_def get_item_def and_then_def get_default_metadata_def)



lemma process_file_empty_text:
  assumes empty: "extract_text_from_pdf e (full_path p) 3 = []"
      and io: "\<not> io_fails e metadata_path"
  shows "fst (snd (process_file e p (JList rs) w)) = JList (rs @ [default_record p])
         \<and> files (snd (snd (process_file e p (JList rs) w))) metadata_path
             = Some (Doc (JList (rs @ [default_record p])))"
proof -
  have ex: "extract_metadata_from_pdf e (full_path p) w = (JObj get_default_metadata, w)"
    using empty by (simp add: extract_metadata_from_pdf_def)
  define st where "st = JList (rs @ [default_record p])"
  define w2 where "w2 = (write_file metadata_path (Doc st) w)\<lparr>trace := trace w @ [StoreWritten st]\<rparr>"
  obtain r w3 where sv: "save_processed_file e (rel_path p) w2 = (r, w3)"
    by (cases "save_processed_file e (rel_path p) w2")
  have pf: "process_file e p (JList rs) w = (r, st, w3)"
    using io sv
    by (simp add: process_file_obj [OF ex] print_default normalize_default Let_def
          st_def [symmetric] w2_def [symmetric])
  have "files w2 metadata_path = Some (Doc st)"
    by (simp add: w2_def write_file_def)
  with save_processed_file_cases [OF sv] paths_differ have "files w3 metadata_path = Some (Doc st)"
    by auto
  with pf show ?thesis by (simp add: st_def)
qed

text \<open>
  C6. When the text extractor returns the empty string, the client returns the default
  record and leaves the state as it was, so it makes no completion call; and when the
  store can be written, the list kept in memory and the store file end with the
  default record extended by the three provenance fields.
\<close>

theorem default_record_on_empty_text:
  assumes "extract_text_from_pdf e (full_path p) 3 = []"
  shows "extract_metadata_from_pdf e (full_path p) w = (JObj get_default_metadata, w)
         \<and> (\<not> io_fails e metadata_path \<longrightarrow>
              fst (snd (process_file e p (JList rs) w)) = JList (rs @ [default_record p])
              \<and> files (snd (snd (process_file e p (JList rs) w))) metadata_path
                  = Some (Doc (JList (rs @ [default_record p]))))"
  using assms process_file_empty_text [OF assms]
  by (simp add: extract_metadata_from_pdf_def)

theorem default_record_on_empty_text_witness:
  "extract_text_from_pdf (sample_env (\<lambda>s. Inl JSONDecodeError) (\<lambda>n prompt. Inl APIError)) (full_path broken_pdf) 3 = []
   \<and> extract_metadata_from_pdf (sample_env (\<lambda>s. Inl JSONDecodeError) (\<lambda>n prompt. Inl APIError)) (full_path broken_pdf) sample_world
       = (JObj get_default_metadata, sample_world)
   \<and> files (snd (snd (process_file (sample_env (\<lambda>s. Inl JSONDecodeError) (\<lambda>n prompt. Inl APIError)) broken_pdf (JList []) sample_world)))
        metadata_path
       = Some (Doc (JList [JObj [(''title'', JStr ''unknown''), (''authors'', JList [JStr ''unknown'']),
                                 (''year'', JStr ''unknown''), (''journal'', JStr ''unknown''),
                                 (''doi'', JStr ''unknown''), (''keywords'', JList []),
                                 (''abstract'', JStr ''unknown''), (''filename'', JStr ''b.pdf''),
                                 (''relative_path'', JStr ''b.pdf''), (''full_path'', JStr ''papers/b.pdf'')]]))"
proof -
  have h: "extract_text_from_pdf (sample_env (\<lambda>s. Inl JSONDecodeError) (\<lambda>n prompt. Inl APIError)) (full_path broken_pdf) 3 = []"
    by (simp add: broken_pdf_def broken_text)
  from default_record_on_empty_text [OF h, of sample_world "[]"] h show ?thesis
    by (simp add: sample_io_fails default_record_def get_default_metadata_def broken_pdf_def)
qed



section \<open>Properties of the response cleanup\<close>

lemma replace_fence_end:
  "\<not> str_contains ''```'' body \<Longrightarrow> py_replace ''```'' [] (body @ ''```'') = body"
proof (induction body)
  case Nil
  show ?case by (simp add: startswith_def)
next
  case (Cons c cs)
  then have no: "\<not> startswith (c # cs) ''```''" and IH: "py_replace ''```'' [] (cs @ ''```'') = cs"
    by simp_all
  show ?case
  proof (cases cs)
    case Nil
    then show ?thesis by (simp add: startswith_def)
  next
    case (Cons d ds)
    note cs = this
    show ?thesis
    proof (cases ds)
      case Nil
      with cs show ?thesis by (simp add: startswith_def)
    next
      case (Cons d' ds')
      with cs no have "\<not> startswith (c # cs @ ''```'') ''```''"
        by (simp add: startswith_def)
      with IH show ?thesis by simp
    qed
  qed
qed

lemma replace_json_fence_end:
  "\<not> str_contains ''```'' body \<Longrightarrow> py_replace ''```json'' [] (body @ ''```'') = body @ ''```''"
proof (induction body)
  case Nil
  show ?case by (simp add: startswith_def)
next
  case (Cons c cs)
  then have no: "\<not> startswith (c # cs) ''```''"
    and IH: "py_replace ''```json'' [] (cs @ ''```'') = cs @ ''```''"
    by simp_all
  have "\<not> startswith (c # cs @ ''```'') ''```json''"
  proof (cases cs)
    case Nil
    then show ?thesis by (simp add: startswith_def)
  next
    case (Cons d ds)
    note cs = this
    show ?thesis
    proof (cases ds)
      case Nil
      with cs show ?thesis by (simp add: startswith_def)
    next
      case (Cons d' ds')
      with cs no show ?thesis by (auto simp: startswith_def)
    qed
  qed
  with IH show ?case by simp
qed



lemma startswith_shorter: "startswith s (p @ q) \<Longrightarrow> startswith s p"
proof -
  assume "startswith s (p @ q)"
  then have "take (length p) (take (length p + length q) s) = take (length p) (p @ q)"
    by (simp add: startswith_def)
  then show ?thesis by (simp add: startswith_def min_def)
qed

lemma startswith_cancel: "startswith (p @ s) (p @ q) = startswith s q"
  by (simp add: startswith_def)

lemma startswith_body:
  assumes "startswith (b @ t) q" and "set q \<inter> set t = {}"
  shows "startswith b q"
proof -
  from assms(1) have eq: "take (length q) b @ take (length q - length b) t = q"
    by (simp add: startswith_def)
  have "take (length q - length b) t = []"
  proof (rule ccontr)
    assume ne: "take (length q - length b) t \<noteq> []"
    then have "hd (take (length q - length b) t) \<in> set (take (length q - length b) t)"
      by (rule hd_in_set)
    then have "hd (take (length q - length b) t) \<in> set t" by (rule in_set_takeD)
    moreover have "hd (take (length q - length b) t) \<in> set q"
      using ne eq by (metis Un_iff hd_in_set set_append)
    ultimately show False using assms(2) by blast
  qed
  with eq show ?thesis by (simp add: startswith_def)
qed

lemma no_fence_no_json_fence:
  "\<not> startswith s ''```'' \<Longrightarrow> \<not> startswith s ''```json''"
  using startswith_shorter [of s "''```''" "''json''"] by auto

lemma plain_fence_not_json:
  assumes "\<not> startswith body ''json''"
  shows "\<not> startswith (''```'' @ body @ ''```'') ''```json''"
proof
  assume "startswith (''```'' @ body @ ''```'') ''```json''"
  then have "startswith (''```'' @ body @ ''```'') (''```'' @ ''json'')" by simp
  then have "startswith (body @ ''```'') ''json''" by (simp only: startswith_cancel)
  then have "startswith body ''json''" by (rule startswith_body) simp
  with assms show False by simp
qed

lemma startswith_iff: "startswith s p \<longleftrightarrow> (\<exists>b. s = p @ b)"
proof
  assume "startswith s p"
  then have "s = p @ drop (length p) s"
    by (metis append_take_drop_id startswith_def)
  then show "\<exists>b. s = p @ b" ..
next
  assume "\<exists>b. s = p @ b"
  then show "startswith s p" by (auto simp: startswith_def)
qed

lemma str_contains_iff: "str_contains p s \<longleftrightarrow> (\<exists>a b. s = a @ p @ b)"
proof (induction s)
  case Nil
  show ?case by auto
next
  case (Cons c cs)
  show ?case
  proof
    assume "str_contains p (c # cs)"
    then have "startswith (c # cs) p \<or> str_contains p cs" by simp
    then show "\<exists>a b. c # cs = a @ p @ b"
    proof
      assume "startswith (c # cs) p"
      then obtain b where "c # cs = p @ b" unfolding startswith_iff by blast
      then have "c # cs = [] @ p @ b" by simp
      then show ?thesis by blast
    next
      assume "str_contains p cs"
      with Cons.IH obtain a b where "cs = a @ p @ b" by blast
      then have "c # cs = (c # a) @ p @ b" by simp
      then show ?thesis by blast
    qed
  next
    assume "\<exists>a b. c # cs = a @ p @ b"
    then obtain a b where ab: "c # cs = a @ p @ b" by blast
    show "str_contains p (c # cs)"
    proof (cases a)
      case Nil
      with ab have "startswith (c # cs) p" unfolding startswith_iff by auto
      then show ?thesis by simp
    next
      case (Cons x xs)
      with ab have "cs = xs @ p @ b" by simp
      with Cons.IH have "str_contains p cs" by blast
      then show ?thesis by simp
    qed
  qed
qed

lemma strip_decomp: "\<exists>pre post. s = pre @ py_strip s @ post"
proof -
  define t where "t = dropWhile py_isspace s"
  have "s = takeWhile py_isspace s @ t" by (simp add: t_def)
  moreover have "rev t = takeWhile py_isspace (rev t) @ dropWhile py_isspace (rev t)" by simp
  then have "rev (rev t) = rev (takeWhile py_isspace (rev t) @ dropWhile py_isspace (rev t))" by simp
  then have "t = rev (dropWhile py_isspace (rev t)) @ rev (takeWhile py_isspace (rev t))"
    by (simp only: rev_rev_ident rev_append)
  ultimately have "s = takeWhile py_isspace s @ py_strip s @ rev (takeWhile py_isspace (rev t))"
    by (simp add: py_strip_def t_def)
  then show ?thesis by blast
qed

lemma strip_keeps_absence:
  assumes "\<not> str_contains p s"
  shows "\<not> str_contains p (py_strip s)"
proof
  assume "str_contains p (py_strip s)"
  then obtain a b where "py_strip s = a @ p @ b" unfolding str_contains_iff by blast
  moreover obtain pre post where "s = pre @ py_strip s @ post" using strip_decomp by blast
  ultimately have "s = (pre @ a) @ p @ (b @ post)" by simp
  then have "str_contains p s" unfolding str_contains_iff by blast
  with assms show False by simp
qed

lemma contains_longer: "str_contains (p @ q) s \<Longrightarrow> str_contains p s"
proof -
  assume "str_contains (p @ q) s"
  then obtain a b where "s = a @ (p @ q) @ b" unfolding str_contains_iff by blast
  then have "s = a @ p @ (q @ b)" by simp
  then show ?thesis unfolding str_contains_iff by blast
qed

lemma replace_absent:
  "old \<noteq> [] \<Longrightarrow> \<not> str_contains old s \<Longrightarrow> py_replace old new s = s"
  by (induction s) simp_all

lemma fence_lead:
  "startswith s ''```'' \<longleftrightarrow> 3 \<le> length (takeWhile (\<lambda>c. c = CHR 0x60) s)"
proof (cases s)
  case Nil
  then show ?thesis by (simp add: startswith_def)
next
  case (Cons a as)
  note s = this
  show ?thesis
  proof (cases as)
    case Nil
    with s show ?thesis by (simp add: startswith_def)
  next
    case (Cons b bs)
    note as = this
    show ?thesis
    proof (cases bs)
      case Nil
      with s as show ?thesis by (simp add: startswith_def)
    next
      case (Cons c cs)
      with s as show ?thesis by (auto simp: startswith_def)
    qed
  qed
qed

lemma lead_replace:
  "length (takeWhile (\<lambda>c. c = CHR 0x60) (py_replace ''```'' [] s))
     = length (takeWhile (\<lambda>c. c = CHR 0x60) s) mod 3"
proof (induction "length s" arbitrary: s rule: less_induct)
  case less
  show ?case
  proof (cases s)
    case Nil
    then show ?thesis by simp
  next
    case (Cons c cs)
    show ?thesis
    proof (cases "startswith s ''```''")
      case True
      then obtain r where r: "s = ''```'' @ r" unfolding startswith_iff by blast
      then have "length r < length s" by simp
      from less [OF this] r show ?thesis by (simp add: startswith_def)
    next
      case False
      then have small: "length (takeWhile (\<lambda>c. c = CHR 0x60) s) < 3"
        unfolding fence_lead by simp
      have "length cs < length s" using Cons by simp
      note IH = less [OF this]
      from False Cons have out: "py_replace ''```'' [] s = c # py_replace ''```'' [] cs" by simp
      show ?thesis
      proof (cases "c = CHR 0x60")
        case True
        with small Cons have "length (takeWhile (\<lambda>c. c = CHR 0x60) cs) < 2" by simp
        with IH True Cons out small show ?thesis by simp
      next
        case False
        with Cons out show ?thesis by simp
      qed
    qed
  qed
qed

lemma replace_leaves_no_fence: "\<not> str_contains ''```'' (py_replace ''```'' [] s)"
proof (induction "length s" arbitrary: s rule: less_induct)
  case less
  show ?case
  proof (cases s)
    case Nil
    then show ?thesis by simp
  next
    case (Cons c cs)
    show ?thesis
    proof (cases "startswith s ''```''")
      case True
      then obtain r where r: "s = ''```'' @ r" unfolding startswith_iff by blast
      then have "length r < length s" by simp
      from less [OF this] r show ?thesis by (simp add: startswith_def)
    next
      case False
      have "length cs < length s" using Cons by simp
      note IH = less [OF this]
      from False Cons have out: "py_replace ''```'' [] s = c # py_replace ''```'' [] cs" by simp
      have "length (takeWhile (\<lambda>c. c = CHR 0x60) (py_replace ''```'' [] s)) < 3"
        unfolding lead_replace by simp
      then have "\<not> startswith (py_replace ''```'' [] s) ''```''"
        unfolding fence_lead by simp
      with IH out show ?thesis by simp
    qed
  qed
qed

lemma cleaned_has_no_fence:
  assumes "startswith (py_strip text) ''```''"
  shows "\<not> str_contains ''```'' (clean_response text)"
proof (cases "startswith (py_strip text) ''```json''")
  case True
  then have "clean_response text =
      py_strip (py_replace ''```'' [] (py_replace ''```json'' [] (py_strip text)))"
    by (simp add: clean_response_def)
  then show ?thesis
    using strip_keeps_absence [OF replace_leaves_no_fence] by simp
next
  case False
  with assms have "clean_response text = py_strip (py_replace ''```'' [] (py_strip text))"
    by (simp add: clean_response_def)
  then show ?thesis
    using strip_keeps_absence [OF replace_leaves_no_fence] by simp
qed

lemma open_fence_only:
  assumes b: "\<not> str_contains ''```'' body"
  shows "py_replace ''```'' [] (py_replace ''```json'' [] (''```json'' @ body)) = body"
    and "py_replace ''```'' [] (''```'' @ body) = body"
proof -
  have nj: "\<not> str_contains ''```json'' body"
    using b contains_longer [of "''```''" "''json''" body] by auto
  have "py_replace ''```json'' [] (''```json'' @ body) = py_replace ''```json'' [] body"
    by (simp add: startswith_def)
  also have "\<dots> = body" using nj by (simp add: replace_absent)
  finally show "py_replace ''```'' [] (py_replace ''```json'' [] (''```json'' @ body)) = body"
    using b by (simp add: replace_absent)
  have "py_replace ''```'' [] (''```'' @ body) = py_replace ''```'' [] body"
    by (simp add: startswith_def)
  then show "py_replace ''```'' [] (''```'' @ body) = body"
    using b by (simp add: replace_absent)
qed

lemma plain_open_not_json:
  assumes "\<not> startswith body ''json''"
  shows "\<not> startswith (''```'' @ body) ''```json''"
proof
  assume "startswith (''```'' @ body) ''```json''"
  then have "startswith (''```'' @ body) (''```'' @ ''json'')" by simp
  then have "startswith body ''json''" by (simp only: startswith_cancel)
  with assms show False by simp
qed

text \<open>
  C9, as the code has it. A response that, once stripped, does not start with three
  backticks goes to the parser as it is. For every response that does, what reaches the
  parser holds no three backticks in a row: the cleanup deletes them wherever they
  stand, not only at the two ends. A response that is an opening fence (with \<^verbatim>\<open>json\<close>, or plain and
  not followed by \<^verbatim>\<open>json\<close>), a body and a closing fence goes to the parser as the
  stripped body when the body holds no three backticks in a row, and so does a response
  with the opening fence only; a body that holds three backticks in a row is changed.
\<close>

theorem fence_stripping:
  "(\<not> startswith (py_strip text) ''```'' \<longrightarrow> clean_response text = py_strip text)
   \<and> (startswith (py_strip text) ''```'' \<longrightarrow> \<not> str_contains ''```'' (clean_response text))
   \<and> (py_strip text = ''```json'' @ body @ ''```'' \<and> \<not> str_contains ''```'' body \<longrightarrow>
        clean_response text = py_strip body)
   \<and> (py_strip text = ''```'' @ body @ ''```'' \<and> \<not> startswith body ''json''
        \<and> \<not> str_contains ''```'' body \<longrightarrow>
        clean_response text = py_strip body)
   \<and> (py_strip text = ''```json'' @ body \<and> \<not> str_contains ''```'' body \<longrightarrow>
        clean_response text = py_strip body)
   \<and> (py_strip text = ''```'' @ body \<and> \<not> startswith body ''json''
        \<and> \<not> str_contains ''```'' body \<longrightarrow>
        clean_response text = py_strip body)"
proof (intro conjI impI)
  assume a: "\<not> startswith (py_strip text) ''```''"
  then have "\<not> startswith (py_strip text) ''```json''"
    by (rule no_fence_no_json_fence)
  with a show "clean_response text = py_strip text"
    by (simp add: clean_response_def)
next
  assume "startswith (py_strip text) ''```''"
  then show "\<not> str_contains ''```'' (clean_response text)"
    by (rule cleaned_has_no_fence)
next
  assume "py_strip text = ''```json'' @ body @ ''```'' \<and> \<not> str_contains ''```'' body"
  then have t: "py_strip text = ''```json'' @ body @ ''```''" and b: "\<not> str_contains ''```'' body"
    by simp_all
  have "py_replace ''```json'' [] (''```json'' @ body @ ''```'') = py_replace ''```json'' [] (body @ ''```'')"
    by (simp add: startswith_def)
  then show "clean_response text = py_strip body"
    using t replace_json_fence_end [OF b] replace_fence_end [OF b]
    by (simp add: clean_response_def startswith_def)
next
  assume "py_strip text = ''```'' @ body @ ''```'' \<and> \<not> startswith body ''json''
        \<and> \<not> str_contains ''```'' body"
  then have t: "py_strip text = ''```'' @ body @ ''```''" and j: "\<not> startswith body ''json''"
    and b: "\<not> str_contains ''```'' body"
    by simp_all
  have nj: "\<not> startswith (''```'' @ body @ ''```'') ''```json''"
    using j by (rule plain_fence_not_json)
  have "py_replace ''```'' [] (''```'' @ body @ ''```'') = py_replace ''```'' [] (body @ ''```'')"
    by (simp add: startswith_def)
  then show "clean_response text = py_strip body"
    using t nj replace_fence_end [OF b]
    by (simp add: clean_response_def) (simp add: startswith_def)
next
  assume "py_strip text = ''```json'' @ body \<and> \<not> str_contains ''```'' body"
  then have t: "py_strip text = ''```json'' @ body" and b: "\<not> str_contains ''```'' body"
    by simp_all
  have "startswith (''```json'' @ body) ''```json''" by (simp add: startswith_def)
  then show "clean_response text = py_strip body"
    using t open_fence_only(1) [OF b] by (simp add: clean_response_def)
next
  assume "py_strip text = ''```'' @ body \<and> \<not> startswith body ''json''
        \<and> \<not> str_contains ''```'' body"
  then have t: "py_strip text = ''```'' @ body" and j: "\<not> startswith body ''json''"
    and b: "\<not> str_contains ''```'' body"
    by simp_all
  have "startswith (''```'' @ body) ''```''" by (simp add: startswith_def)
  then show "clean_response text = py_strip body"
    using t plain_open_not_json [OF j] open_fence_only(2) [OF b] by (simp add: clean_response_def)
qed

theorem fence_stripping_witness:
  "clean_response '' {} '' = ''{}''
   \<and> clean_response ''```json {} ```'' = ''{}''
   \<and> clean_response ''``` {} ```'' = ''{}''
   \<and> clean_response ''```json {} '' = ''{}''
   \<and> \<not> str_contains ''```'' (clean_response ''```json {} ``` and ```x```'')"
proof -
  have s: "py_strip '' {} '' = ''{}''" "py_strip ''```json {} ```'' = ''```json'' @ '' {} '' @ ''```''"
    "py_strip ''``` {} ```'' = ''```'' @ '' {} '' @ ''```''"
    "py_strip ''```json {} '' = ''```json'' @ '' {}''" "py_strip '' {}'' = ''{}''"
    "py_strip ''```json {} ``` and ```x```'' = ''```json {} ``` and ```x```''"
    by (simp_all add: py_strip_def py_isspace_def)
  have n: "\<not> startswith (py_strip '' {} '') ''```''" "\<not> str_contains ''```'' '' {} ''"
    "\<not> startswith '' {} '' ''json''" "\<not> str_contains ''```'' '' {}''"
    "startswith (py_strip ''```json {} ``` and ```x```'') ''```''"
    by (simp_all add: s startswith_def)
  from fence_stripping [of "'' {} ''"] n(1) have "clean_response '' {} '' = py_strip '' {} ''" by blast
  moreover from fence_stripping [of "''```json {} ```''" "'' {} ''"] s(2) n(2)
  have "clean_response ''```json {} ```'' = py_strip '' {} ''" by blast
  moreover from fence_stripping [of "''``` {} ```''" "'' {} ''"] s(3) n(2) n(3)
  have "clean_response ''``` {} ```'' = py_strip '' {} ''" by blast
  moreover from fence_stripping [of "''```json {} ''" "'' {}''"] s(4) n(4)
  have "clean_response ''```json {} '' = py_strip '' {}''" by blast
  moreover from fence_stripping [of "''```json {} ``` and ```x```''"] n(5)
  have "\<not> str_contains ''```'' (clean_response ''```json {} ``` and ```x```'')" by blast
  ultimately show ?thesis by (simp add: s)
qed

text \<open>
  C9 as the claim states it: here the enclosed text holds three backticks inside a
  JSON string, and what reaches the parser is not the enclosed text.
\<close>

theorem fence_stripping_counterexample:
  \<open>clean_response (''```json'' @ ''{"title": "a```b"}'' @ ''```'') = ''{"title": "ab"}''
   \<and> clean_response (''```json'' @ ''{"title": "a```b"}'' @ ''```'') \<noteq> py_strip ''{"title": "a```b"}''\<close>
  by (simp add: clean_response_def py_strip_def py_isspace_def startswith_def)

section \<open>Properties of the reset\<close>

lemma backup_name_differs:
  "backup_name t \<noteq> metadata_path" "backup_name t \<noteq> processed_files_path"
  by (simp_all add: backup_name_def metadata_path_def processed_files_path_def)

lemma backup_store_ok:
  assumes "backup_store e w = (Inr (), w')"
  shows "(files w metadata_path = Some d \<longrightarrow>
            files w' metadata_path = None \<and> files w' (backup_name (clock w)) = Some d
            \<and> (\<forall>path. path \<noteq> metadata_path \<and> path \<noteq> backup_name (clock w) \<longrightarrow> files w' path = files w path))
         \<and> (files w metadata_path = None \<longrightarrow> w' = w)"
  using assms backup_name_differs(1) [of "clock w"]
  by (auto simp: backup_store_def split: option.splits if_splits)

text \<open>
  C7, as the code has it. When no path fails, the reset returns. After it the ledger
  file is gone; a store file that existed is gone under its name and the file
  \<^verbatim>\<open>metadata_backup_<timestamp>.json\<close> holds what the store held, while every other
  file, earlier backups among them, is as it was; and when there was no store file,
  nothing but the ledger file has changed, so no backup is made.
\<close>

theorem reset_moves_store_to_backup:
  "(\<not> io_fails e processed_files_path \<and> \<not> io_fails e metadata_path \<and> \<not> io_fails e (backup_name (clock w)) \<longrightarrow>
      fst (reset_processing_status e w) = Inr ())
   \<and> (reset_processing_status e w = (Inr (), w') \<longrightarrow>
        files w' processed_files_path = None
        \<and> (files w metadata_path = Some d \<longrightarrow>
              files w' metadata_path = None
              \<and> files w' (backup_name (clock w)) = Some d
              \<and> (\<forall>path. path \<noteq> processed_files_path \<and> path \<noteq> metadata_path
                         \<and> path \<noteq> backup_name (clock w) \<longrightarrow> files w' path = files w path))
        \<and> (files w metadata_path = None \<longrightarrow>
              (\<forall>path. path \<noteq> processed_files_path \<longrightarrow> files w' path = files w path)))"
proof (intro conjI impI)
  assume "\<not> io_fails e processed_files_path \<and> \<not> io_fails e metadata_path \<and> \<not> io_fails e (backup_name (clock w))"
  then show "fst (reset_processing_status e w) = Inr ()"
    by (auto simp: reset_processing_status_def backup_store_def split: option.splits)
next
  assume r: "reset_processing_status e w = (Inr (), w')"
  define w0 where "w0 = (if files w processed_files_path \<noteq> None
                         then w\<lparr>files := (files w)(processed_files_path := None)\<rparr> else w)"
  from r have b: "backup_store e w0 = (Inr (), w')"
    by (auto simp: reset_processing_status_def w0_def split: if_splits)
  have w0: "files w0 processed_files_path = None" "clock w0 = clock w"
    "\<And>path. path \<noteq> processed_files_path \<Longrightarrow> files w0 path = files w path"
    by (auto simp: w0_def)
  have m0: "files w0 metadata_path = files w metadata_path"
    using w0(3) [of metadata_path] paths_differ by simp
  note bs = backup_store_ok [OF b]
  show "files w' processed_files_path = None"
  proof (cases "files w0 metadata_path")
    case None
    with bs [of undefined] w0(1) show ?thesis by simp
  next
    case (Some d0)
    with bs [of d0] w0(1) w0(2) paths_differ backup_name_differs(2) [of "clock w"] show ?thesis
      by (metis (no_types))
  qed
  {
    assume d: "files w metadata_path = Some d"
    with bs [of d] m0 w0(2) show "files w' metadata_path = None" by simp
    from d bs [of d] m0 w0(2) show "files w' (backup_name (clock w)) = Some d" by simp
    from d bs [of d] m0 w0(2) w0(3)
    show "\<forall>path. path \<noteq> processed_files_path \<and> path \<noteq> metadata_path
                         \<and> path \<noteq> backup_name (clock w) \<longrightarrow> files w' path = files w path"
      by simp
  }
  {
    assume "files w metadata_path = None"
    with bs [of d] m0 w0(3)
    show "\<forall>path. path \<noteq> processed_files_path \<longrightarrow> files w' path = files w path" by simp
  }
qed

lemma backup_names:
  "backup_name 1700000000 = ''metadata_backup_1700000000.json''"
  "backup_name 1700003600 = ''metadata_backup_1700003600.json''"
  by (simp_all add: backup_name_def string_of_int_def string_of_nat.simps)

lemma reset_sample:
  "fst (reset_processing_status (sample_env loads gen) world_with_backup) = Inr ()"
  by (simp add: reset_processing_status_def backup_store_def sample_io_fails world_with_backup_def
        processed_files_path_def metadata_path_def)

theorem reset_moves_store_to_backup_witness:
  "fst (reset_processing_status (sample_env (\<lambda>s. Inl JSONDecodeError) (\<lambda>n prompt. Inl APIError)) world_with_backup) = Inr ()
   \<and> files (snd (reset_processing_status (sample_env (\<lambda>s. Inl JSONDecodeError) (\<lambda>n prompt. Inl APIError)) world_with_backup))
        ''processed_files.json'' = None
   \<and> files (snd (reset_processing_status (sample_env (\<lambda>s. Inl JSONDecodeError) (\<lambda>n prompt. Inl APIError)) world_with_backup))
        ''metadata.json'' = None
   \<and> files (snd (reset_processing_status (sample_env (\<lambda>s. Inl JSONDecodeError) (\<lambda>n prompt. Inl APIError)) world_with_backup))
        ''metadata_backup_1700003600.json'' = Some (Doc (JList [default_record sample_pdf]))"
proof -
  define E where "E = sample_env (\<lambda>s. Inl JSONDecodeError) (\<lambda>n prompt. Inl APIError)"
  obtain r w' where rw: "reset_processing_status E world_with_backup = (r, w')"
    by (cases "reset_processing_status E world_with_backup")
  have r: "r = Inr ()" using reset_sample [of "\<lambda>s. Inl JSONDecodeError" "\<lambda>n prompt. Inl APIError"] rw
    by (simp add: E_def)
  have m: "files world_with_backup metadata_path = Some (Doc (JList [default_record sample_pdf]))"
    "clock world_with_backup = 1700003600"
    by (simp_all add: world_with_backup_def metadata_path_def)
  from reset_moves_store_to_backup [of E world_with_backup w' "Doc (JList [default_record sample_pdf])"] rw r m
  have "files w' processed_files_path = None" "files w' metadata_path = None"
    "files w' (backup_name 1700003600) = Some (Doc (JList [default_record sample_pdf]))"
    by auto
  with rw r show ?thesis
    by (simp add: E_def [symmetric] backup_names processed_files_path_def metadata_path_def)
qed

text \<open>
  C7 as the claim states it: with a backup left by an earlier reset, two backup files
  hold the contents of the prior store after the reset, not exactly one.
\<close>

theorem reset_one_backup_counterexample:
  "fst (reset_processing_status (sample_env (\<lambda>s. Inl JSONDecodeError) (\<lambda>n prompt. Inl APIError)) world_with_backup) = Inr ()
   \<and> files world_with_backup ''metadata.json'' = Some (Doc (JList [default_record sample_pdf]))
   \<and> files (snd (reset_processing_status (sample_env (\<lambda>s. Inl JSONDecodeError) (\<lambda>n prompt. Inl APIError)) world_with_backup))
        ''metadata_backup_1700000000.json'' = Some (Doc (JList [default_record sample_pdf]))
   \<and> files (snd (reset_processing_status (sample_env (\<lambda>s. Inl JSONDecodeError) (\<lambda>n prompt. Inl APIError)) world_with_backup))
        ''metadata_backup_1700003600.json'' = Some (Doc (JList [default_record sample_pdf]))
   \<and> backup_name (clock world_with_backup) = ''metadata_backup_1700003600.json''"
  by (simp add: reset_processing_status_def backup_store_def sample_io_fails world_with_backup_def
        processed_files_path_def metadata_path_def backup_names)

end
